theory Spec2Isabelle
  imports Complex_Main "HOL-Library.Product_Lexorder"
begin

section \<open>Python values used by the program\<close>

text \<open>
  A Python \<^verbatim>\<open>str\<close> is a sequence of Unicode code points; it is modelled as a list of
  natural numbers, so that the non-ASCII literals of the source and the Unicode white space
  that \<^verbatim>\<open>str.strip\<close> removes are what they are in Python. \<open>lit\<close> turns an ASCII literal
  into such a string.

  A Python \<^verbatim>\<open>float\<close> is modelled by the real number it denotes, and the product
  \<^verbatim>\<open>c * 255\<close> is the exact product; the special values (infinities, NaN) are outside the
  model.
\<close>

type_synonym pystr = "nat list"

definition lit :: "string \<Rightarrow> pystr" where
  "lit s = map of_char s"

datatype py_error = IndexError

text \<open>\<^verbatim>\<open>str.isspace\<close> of one character: the white-space code points of CPython.\<close>

definition py_isspace :: "nat \<Rightarrow> bool" where
  "py_isspace c \<longleftrightarrow>
     (9 \<le> c \<and> c \<le> 13) \<or> (28 \<le> c \<and> c \<le> 32) \<or> c = 133 \<or> c = 160 \<or> c = 5760 \<or>
     (8192 \<le> c \<and> c \<le> 8202) \<or> c = 8232 \<or> c = 8233 \<or> c = 8239 \<or> c = 8287 \<or> c = 12288"

text \<open>\<^verbatim>\<open>s.strip()\<close>: leading and trailing white space removed.\<close>

definition py_strip :: "pystr \<Rightarrow> pystr" where
  "py_strip s = rev (dropWhile py_isspace (rev (dropWhile py_isspace s)))"

text \<open>\<^verbatim>\<open>s.replace('\n', '')\<close>: every line feed (code point 10) deleted.\<close>

definition remove_newlines :: "pystr \<Rightarrow> pystr" where
  "remove_newlines s = filter (\<lambda>c. c \<noteq> 10) s"

text \<open>
  \<^verbatim>\<open>s.upper()\<close> on the strings this program applies it to: ASCII letters are mapped to
  upper case, every other code point is kept. (The strings \<^verbatim>\<open>rgb_to_hex\<close> returns consist
  of ASCII characters, or are the placeholder, whose four characters have no case.)
\<close>

definition upper_char :: "nat \<Rightarrow> nat" where
  "upper_char c = (if 97 \<le> c \<and> c \<le> 122 then c - 32 else c)"

definition py_upper :: "pystr \<Rightarrow> pystr" where
  "py_upper s = map upper_char s"

text \<open>\<^verbatim>\<open>int(x)\<close> of a float: truncation towards zero.\<close>

definition py_int :: "real \<Rightarrow> int" where
  "py_int x = (if 0 \<le> x then \<lfloor>x\<rfloor> else \<lceil>x\<rceil>)"

text \<open>
  \<^verbatim>\<open>'{:02x}'.format(n)\<close> of an integer: lower-case hexadecimal digits, padded with zeros
  to a width of two characters; a negative number has its sign first, which counts for the
  width.
\<close>

definition hex_digit :: "nat \<Rightarrow> nat" where
  "hex_digit d = (if d < 10 then 48 + d else 87 + d)"

fun hex_digits :: "nat \<Rightarrow> pystr" where
  "hex_digits n = (if n < 16 then [hex_digit n] else hex_digits (n div 16) @ [hex_digit (n mod 16)])"

declare hex_digits.simps [simp del]

definition format_02x :: "int \<Rightarrow> pystr" where
  "format_02x n =
     (if 0 \<le> n then (let ds = hex_digits (nat n) in replicate (2 - length ds) 48 @ ds)
      else 45 # hex_digits (nat (- n)))"

text \<open>
  The colour sequence of an annotation is a tuple or a list of floats; the two differ only
  in what \<^verbatim>\<open>str\<close> prints. \<^verbatim>\<open>repr\<close> of a float is a parameter \<open>float_repr\<close>.
\<close>

datatype pyseq = PyTuple "real list" | PyList "real list"

fun items :: "pyseq \<Rightarrow> real list" where
  "items (PyTuple cs) = cs"
| "items (PyList cs) = cs"

fun join_comma :: "pystr list \<Rightarrow> pystr" where
  "join_comma [] = []"
| "join_comma [s] = s"
| "join_comma (s # t # ss) = s @ lit '', '' @ join_comma (t # ss)"

fun py_str_seq :: "(real \<Rightarrow> pystr) \<Rightarrow> pyseq \<Rightarrow> pystr" where
  "py_str_seq float_repr (PyTuple cs) =
     lit ''('' @ join_comma (map float_repr cs) @ (if length cs = 1 then lit '','' else []) @ lit '')''"
| "py_str_seq float_repr (PyList cs) =
     lit ''['' @ join_comma (map float_repr cs) @ lit '']''"

section \<open>rgb_to_hex\<close>

text \<open>The placeholder of \<^verbatim>\<open>rgb_to_hex\<close> for a missing colour (U+6307 U+5B9A U+306A U+3057).\<close>

definition not_specified :: pystr where
  "not_specified = [0x6307, 0x5B9A, 0x306A, 0x3057]"

definition rgb_to_hex :: "(real \<Rightarrow> pystr) \<Rightarrow> pyseq option \<Rightarrow> pystr" where
  "rgb_to_hex float_repr color_tuple =
     (case color_tuple of
        None \<Rightarrow> not_specified
      | Some seq \<Rightarrow>
          if items seq = [] then not_specified
          else
            let rgb = map (\<lambda>c. py_int (c * 255)) (items seq) in
            if length rgb = 3 then
              lit ''#'' @ format_02x (rgb ! 0) @ format_02x (rgb ! 1) @ format_02x (rgb ! 2)
            else if length rgb = 1 then
              (let val = rgb ! 0 in lit ''#'' @ format_02x val @ format_02x val @ format_02x val)
            else py_str_seq float_repr seq)"

text \<open>A well-formed colour code: \<^verbatim>\<open>#\<close> and six lower-case hexadecimal digits.\<close>

definition lower_hex_char :: "nat \<Rightarrow> bool" where
  "lower_hex_char c \<longleftrightarrow> (48 \<le> c \<and> c \<le> 57) \<or> (97 \<le> c \<and> c \<le> 102)"

definition is_hex_code :: "pystr \<Rightarrow> bool" where
  "is_hex_code s \<longleftrightarrow> length s = 7 \<and> take 1 s = [35] \<and> list_all lower_hex_char (drop 1 s)"

section \<open>get_drawing_number\<close>

text \<open>
  A text block as \<^verbatim>\<open>page.get_text("blocks")\<close> reports it: the tuple
  \<^verbatim>\<open>(x0, y0, x1, y1, text, block_no, block_type)\<close>. The source reads \<^verbatim>\<open>b[4]\<close> (the
  text), \<^verbatim>\<open>b[3]\<close> (\<open>y1\<close>, the bottom edge) and \<^verbatim>\<open>b[2]\<close> (\<open>x1\<close>, the right edge).
\<close>

record block =
  b_x0 :: real
  b_y0 :: real
  b_x1 :: real
  b_y1 :: real
  b_text :: pystr
  b_no :: nat
  b_type :: nat

text \<open>The dictionary \<^verbatim>\<open>{"text": ..., "y1": ..., "x1": ...}\<close> appended to \<^verbatim>\<open>candidates\<close>.\<close>

record candidate =
  c_text :: pystr
  c_y1 :: real
  c_x1 :: real

text \<open>The string returned when nothing can be read: \<^verbatim>\<open>(\<close>, U+8AAD U+53D6 U+4E0D U+53EF, \<^verbatim>\<open>)\<close>.\<close>

definition unreadable :: pystr where
  "unreadable = [0x28, 0x8AAD, 0x53D6, 0x4E0D, 0x53EF, 0x29]"

definition candidate_of :: "block \<Rightarrow> candidate" where
  "candidate_of b = \<lparr>c_text = py_strip (b_text b), c_y1 = b_y1 b, c_x1 = b_x1 b\<rparr>"

text \<open>The loop over \<^verbatim>\<open>blocks\<close> that fills \<^verbatim>\<open>candidates\<close>.\<close>

fun collect_candidates :: "block list \<Rightarrow> candidate list" where
  "collect_candidates [] = []"
| "collect_candidates (b # bs) =
     (let text = py_strip (b_text b) in
      if text = [] then collect_candidates bs
      else \<lparr>c_text = text, c_y1 = b_y1 b, c_x1 = b_x1 b\<rparr> # collect_candidates bs)"

text \<open>The sort key \<^verbatim>\<open>lambda x: (x["y1"], x["x1"])\<close>; pairs are compared lexicographically.\<close>

definition sort_key_of :: "candidate \<Rightarrow> real \<times> real" where
  "sort_key_of x = (c_y1 x, c_x1 x)"

text \<open>
  \<^verbatim>\<open>candidates.sort(key=..., reverse=True)\<close>. Python's sort is stable, also with
  \<^verbatim>\<open>reverse=True\<close>: the list is reversed, sorted stably in ascending order of the key and
  reversed again, so that elements with equal keys keep their original order.
\<close>

definition sort_candidates :: "candidate list \<Rightarrow> candidate list" where
  "sort_candidates cs = rev (sort_key sort_key_of (rev cs))"

text \<open>The body of \<^verbatim>\<open>get_drawing_number\<close> once the blocks of the clip rectangle are there.\<close>

definition select_drawing_number :: "block list \<Rightarrow> py_error + pystr" where
  "select_drawing_number blocks =
     (if blocks = [] then Inr unreadable
      else
        let candidates = collect_candidates blocks in
        if candidates = [] then Inr unreadable
        else
          case sort_candidates candidates of
            [] \<Rightarrow> Inl IndexError
          | best # _ \<Rightarrow> Inr (remove_newlines (c_text best)))"

section \<open>Pages, annotations and rows\<close>

text \<open>
  An annotation: its \<^verbatim>\<open>info\<close> dictionary (keys \<^verbatim>\<open>content\<close>, \<^verbatim>\<open>title\<close>,
  \<^verbatim>\<open>modDate\<close>) and its \<^verbatim>\<open>colors\<close> dictionary (key \<^verbatim>\<open>stroke\<close>).
\<close>

record annot =
  info :: "string \<rightharpoonup> pystr"
  colors :: "string \<rightharpoonup> pyseq"

text \<open>
  A page: its rectangle, the text extraction \<^verbatim>\<open>page.get_text("blocks", clip=r)\<close> as a
  function of the clip rectangle \<open>(x0, y0, x1, y1)\<close>, and the annotations that
  \<^verbatim>\<open>page.annots()\<close> yields, in their order.
\<close>

record page =
  rect_width :: real
  rect_height :: real
  get_text_blocks :: "real \<times> real \<times> real \<times> real \<Rightarrow> block list"
  page_annots :: "annot list"

definition get_drawing_number :: "page \<Rightarrow> real \<Rightarrow> real \<Rightarrow> py_error + pystr" where
  "get_drawing_number page width height =
     (let clip_rect = (width * 0.5, height * 0.5, width, height);
          blocks = get_text_blocks page clip_rect
      in select_drawing_number blocks)"

text \<open>
  One entry of \<^verbatim>\<open>extracted_data\<close>; the fields are, in the order of the source, the page,
  the drawing number, the comment, the author, the modification date, the colour name and
  the colour code.
\<close>

record row =
  r_page :: nat
  r_drawing_no :: pystr
  r_content :: pystr
  r_title :: pystr
  r_modDate :: pystr
  r_color_name :: pystr
  r_color_hex :: pystr

text \<open>The colour names of the source: U+305D U+306E U+4ED6 (other), U+8D64 (red),
  U+9752 (blue), U+9ED2 (black).\<close>

definition name_other :: pystr where "name_other = [0x305D, 0x306E, 0x4ED6]"
definition name_red :: pystr where "name_red = [0x8D64]"
definition name_blue :: pystr where "name_blue = [0x9752]"
definition name_black :: pystr where "name_black = [0x9ED2]"

text \<open>The chain of comparisons that names the colour.\<close>

definition color_name_of :: "pystr \<Rightarrow> pystr" where
  "color_name_of color_hex =
     (if py_upper color_hex = lit ''#FF0000'' then name_red
      else if py_upper color_hex = lit ''#0000FF'' then name_blue
      else if py_upper color_hex = lit ''#000000'' then name_black
      else name_other)"

text \<open>\<^verbatim>\<open>d.get(key, "")\<close>.\<close>

definition get_or_empty :: "(string \<rightharpoonup> pystr) \<Rightarrow> string \<Rightarrow> pystr" where
  "get_or_empty d k = (case d k of None \<Rightarrow> [] | Some v \<Rightarrow> v)"

text \<open>
  The body of the loop over the annotations of page number \<open>i\<close> (counted from 0): \<open>None\<close>
  when the body leaves by \<^verbatim>\<open>continue\<close>, the row it appends otherwise.
\<close>

definition annot_step :: "(real \<Rightarrow> pystr) \<Rightarrow> nat \<Rightarrow> pystr \<Rightarrow> annot \<Rightarrow> row option" where
  "annot_step float_repr i drawing_no annot =
     (case info annot ''content'' of
        None \<Rightarrow> None
      | Some content \<Rightarrow>
          if content = [] then None
          else
            let stroke_color = colors annot ''stroke'';
                color_hex = rgb_to_hex float_repr stroke_color;
                color_name = color_name_of color_hex
            in Some \<lparr>r_page = i + 1, r_drawing_no = drawing_no, r_content = content,
                      r_title = get_or_empty (info annot) ''title'',
                      r_modDate = get_or_empty (info annot) ''modDate'',
                      r_color_name = color_name, r_color_hex = color_hex\<rparr>)"

fun annot_loop :: "(real \<Rightarrow> pystr) \<Rightarrow> nat \<Rightarrow> pystr \<Rightarrow> annot list \<Rightarrow> row list \<Rightarrow> row list" where
  "annot_loop float_repr i drawing_no [] extracted_data = extracted_data"
| "annot_loop float_repr i drawing_no (annot # rest) extracted_data =
     (case annot_step float_repr i drawing_no annot of
        None \<Rightarrow> annot_loop float_repr i drawing_no rest extracted_data
      | Some r \<Rightarrow> annot_loop float_repr i drawing_no rest (extracted_data @ [r]))"

text \<open>
  The loop \<^verbatim>\<open>for i, page in enumerate(doc)\<close> of \<^verbatim>\<open>main\<close>, from index \<open>i\<close> on; an
  exception of \<^verbatim>\<open>get_drawing_number\<close> would end it. The test \<^verbatim>\<open>if annots\<close> is kept as
  the source has it; without annotations the inner loop adds nothing either way.
\<close>

fun page_loop :: "(real \<Rightarrow> pystr) \<Rightarrow> nat \<Rightarrow> page list \<Rightarrow> row list \<Rightarrow> py_error + row list" where
  "page_loop float_repr i [] extracted_data = Inr extracted_data"
| "page_loop float_repr i (page # rest) extracted_data =
     (let width = rect_width page; height = rect_height page in
      case get_drawing_number page width height of
        Inl e \<Rightarrow> Inl e
      | Inr drawing_no \<Rightarrow>
          let annots = page_annots page in
          page_loop float_repr (i + 1) rest
            (if annots \<noteq> [] then annot_loop float_repr i drawing_no annots extracted_data
             else extracted_data))"

text \<open>
  The extraction of \<^verbatim>\<open>main\<close>: the document is the list of its pages, the result is
  \<^verbatim>\<open>extracted_data\<close> after the loop (the user interface and the export are left out).
\<close>

definition main :: "(real \<Rightarrow> pystr) \<Rightarrow> page list \<Rightarrow> py_error + row list" where
  "main float_repr doc = page_loop float_repr 0 doc []"

section \<open>Notions of the specification\<close>

text \<open>An annotation whose content is present and is not the empty string.\<close>

definition has_content :: "annot \<Rightarrow> bool" where
  "has_content a = (case info a ''content'' of None \<Rightarrow> False | Some c \<Rightarrow> c \<noteq> [])"

text \<open>
  An annotation whose content is present, not empty and not made of white space only, in
  the words of the specification.
\<close>

definition has_nonblank_content :: "annot \<Rightarrow> bool" where
  "has_nonblank_content a = (case info a ''content'' of None \<Rightarrow> False | Some c \<Rightarrow> py_strip c \<noteq> [])"

text \<open>
  The colour table of the specification, looked up by a match that ignores the case of
  ASCII letters; a colour code that matches no entry is named ``other''.
\<close>

definition lower_char :: "nat \<Rightarrow> nat" where
  "lower_char c = (if 65 \<le> c \<and> c \<le> 90 then c + 32 else c)"

definition ci_equal :: "pystr \<Rightarrow> pystr \<Rightarrow> bool" where
  "ci_equal s t \<longleftrightarrow> map lower_char s = map lower_char t"

definition spec_color_table :: "(pystr \<times> pystr) list" where
  "spec_color_table =
     [(lit ''#FF0000'', name_red), (lit ''#0000FF'', name_blue), (lit ''#000000'', name_black)]"

definition spec_color_name :: "pystr \<Rightarrow> pystr" where
  "spec_color_name h =
     (case find (\<lambda>entry. ci_equal h (fst entry)) spec_color_table of
        None \<Rightarrow> name_other
      | Some entry \<Rightarrow> snd entry)"

section \<open>Example inputs\<close>

text \<open>Blocks of the lower right quarter of an A4 page (595 by 842 points).\<close>

definition example_title_block :: block where
  "example_title_block =
     \<lparr>b_x0 = 420, b_y0 = 760, b_x1 = 480, b_y1 = 780, b_text = lit ''A-101'', b_no = 0, b_type = 0\<rparr>"

text \<open>Farther right than the title block, but higher on the page.\<close>

definition example_scale_block :: block where
  "example_scale_block =
     \<lparr>b_x0 = 500, b_y0 = 680, b_x1 = 560, b_y1 = 700, b_text = lit ''S=1:100'', b_no = 1, b_type = 0\<rparr>"

text \<open>As low as the title block, but less far right.\<close>

definition example_left_block :: block where
  "example_left_block =
     \<lparr>b_x0 = 320, b_y0 = 760, b_x1 = 380, b_y1 = 780, b_text = lit ''Rev.2'', b_no = 2, b_type = 0\<rparr>"

text \<open>The same bottom and right edges as the title block, another text.\<close>

definition example_tie_block :: block where
  "example_tie_block =
     \<lparr>b_x0 = 430, b_y0 = 765, b_x1 = 480, b_y1 = 780, b_text = lit ''B-202'', b_no = 3, b_type = 0\<rparr>"

text \<open>White space only: two spaces, a line feed and an ideographic space.\<close>

definition example_blank_block :: block where
  "example_blank_block =
     \<lparr>b_x0 = 500, b_y0 = 800, b_x1 = 580, b_y1 = 820, b_text = lit ''  '' @ [10, 12288], b_no = 4, b_type = 0\<rparr>"

text \<open>The text \<^verbatim>\<open>" A-\n101\n"\<close>.\<close>

definition example_multiline_block :: block where
  "example_multiline_block =
     \<lparr>b_x0 = 420, b_y0 = 750, b_x1 = 480, b_y1 = 780,
      b_text = lit '' A-'' @ [10] @ lit ''101'' @ [10], b_no = 5, b_type = 0\<rparr>"

text \<open>A block whose text is the very string that stands for an unreadable number.\<close>

definition example_unreadable_block :: block where
  "example_unreadable_block =
     \<lparr>b_x0 = 420, b_y0 = 760, b_x1 = 480, b_y1 = 780, b_text = unreadable, b_no = 6, b_type = 0\<rparr>"

text \<open>Annotations: a red one by an author, one without colour, and one of a single space.\<close>

definition example_red_annot :: annot where
  "example_red_annot =
     \<lparr>info = [''content'' \<mapsto> lit ''Fix wall'', ''title'' \<mapsto> lit ''Hino''],
      colors = [''stroke'' \<mapsto> PyList [1, 0, 0]]\<rparr>"

definition example_plain_annot :: annot where
  "example_plain_annot = \<lparr>info = [''content'' \<mapsto> lit ''Check door''], colors = Map.empty\<rparr>"

definition example_space_annot :: annot where
  "example_space_annot =
     \<lparr>info = [''content'' \<mapsto> lit '' '', ''title'' \<mapsto> lit ''Hino''],
      colors = [''stroke'' \<mapsto> PyList [0, 0, 1]]\<rparr>"

definition example_cmyk_annot :: annot where
  "example_cmyk_annot =
     \<lparr>info = [''content'' \<mapsto> lit ''Note''], colors = [''stroke'' \<mapsto> PyList [0, 0, 0, 1]]\<rparr>"

text \<open>
  A document of two pages: the first has the title block in its lower right quarter and
  the red annotation, the second has no text there and the annotation without colour.
\<close>

definition example_page1 :: page where
  "example_page1 =
     \<lparr>rect_width = 595, rect_height = 842,
      get_text_blocks = (\<lambda>clip. if clip = (595 * 0.5, 842 * 0.5, 595, 842) then [example_title_block] else []),
      page_annots = [example_red_annot]\<rparr>"

definition example_page2 :: page where
  "example_page2 =
     \<lparr>rect_width = 595, rect_height = 842, get_text_blocks = (\<lambda>clip. []),
      page_annots = [example_plain_annot]\<rparr>"

text \<open>The rows expected for the annotations above.\<close>

definition example_row1 :: row where
  "example_row1 =
     \<lparr>r_page = 1, r_drawing_no = lit ''A-101'', r_content = lit ''Fix wall'',
      r_title = lit ''Hino'', r_modDate = [], r_color_name = name_red,
      r_color_hex = lit ''#ff0000''\<rparr>"

definition example_row2 :: row where
  "example_row2 =
     \<lparr>r_page = 2, r_drawing_no = unreadable, r_content = lit ''Check door'',
      r_title = [], r_modDate = [], r_color_name = name_other, r_color_hex = not_specified\<rparr>"

definition example_row3 :: row where
  "example_row3 =
     \<lparr>r_page = 2, r_drawing_no = unreadable, r_content = lit ''Note'',
      r_title = [], r_modDate = [], r_color_name = name_other,
      r_color_hex = lit ''[0.0, 0.0, 0.0, 1.0]''\<rparr>"

text \<open>A stand-in for \<^verbatim>\<open>repr\<close> of a float in the examples.\<close>

definition example_repr :: "real \<Rightarrow> pystr" where
  "example_repr c = (if c = 0 then lit ''0.0'' else if c = 1 then lit ''1.0'' else lit ''0.5'')"

section \<open>Properties of rgb_to_hex\<close>

lemma hex_digits_small: "n < 16 \<Longrightarrow> hex_digits n = [hex_digit n]"
  by (simp add: hex_digits.simps)

lemma hex_digits_two:
  assumes "16 \<le> n" "n < 256"
  shows "hex_digits n = [hex_digit (n div 16), hex_digit (n mod 16)]"
proof -
  have "n div 16 < 16" using assms by simp
  then show ?thesis
    using assms hex_digits.simps [of n] by (simp add: hex_digits_small)
qed

lemma format_02x_0: "format_02x 0 = [48, 48]"
  by (simp add: format_02x_def hex_digits_small hex_digit_def)

lemma format_02x_255: "format_02x 255 = [102, 102]"
proof -
  have "hex_digits 255 = [102, 102]"
    by (simp add: hex_digits_two hex_digit_def)
  then show ?thesis by (simp add: format_02x_def)
qed

text \<open>
  C6. \<^verbatim>\<open>rgb_to_hex\<close> maps the channels 1.0, 0.0, 0.0 to \<^verbatim>\<open>#ff0000\<close> and the single channel
  0.0 to \<^verbatim>\<open>#000000\<close>; a missing or empty colour gives the placeholder, which is not the
  empty string and is not a colour code (it does not even begin with \<^verbatim>\<open>#\<close>).
\<close>

theorem rgb_to_hex_examples:
  "rgb_to_hex fr (Some (PyList [1.0, 0.0, 0.0])) = lit ''#ff0000'' \<and>
   rgb_to_hex fr (Some (PyTuple [1.0, 0.0, 0.0])) = lit ''#ff0000'' \<and>
   rgb_to_hex fr (Some (PyList [0.0])) = lit ''#000000'' \<and>
   rgb_to_hex fr (Some (PyTuple [0.0])) = lit ''#000000'' \<and>
   rgb_to_hex fr None = not_specified \<and>
   rgb_to_hex fr (Some (PyList [])) = not_specified \<and>
   rgb_to_hex fr (Some (PyTuple [])) = not_specified \<and>
   not_specified \<noteq> [] \<and>
   \<not> is_hex_code not_specified \<and>
   take 1 not_specified \<noteq> lit ''#''"
  by (simp add: rgb_to_hex_def py_int_def format_02x_0 format_02x_255 lit_def not_specified_def
      is_hex_code_def)

lemma hex_digit_lower: "d < 16 \<Longrightarrow> lower_hex_char (hex_digit d)"
  by (simp add: hex_digit_def lower_hex_char_def)

lemma zero_char_lower: "lower_hex_char 48"
  by (simp add: lower_hex_char_def)

lemma format_02x_byte:
  assumes "0 \<le> n" "n \<le> 255"
  shows "length (format_02x n) = 2 \<and> list_all lower_hex_char (format_02x n)"
proof (cases "nat n < 16")
  case True
  then show ?thesis
    using assms by (simp add: format_02x_def hex_digits_small hex_digit_lower zero_char_lower)
next
  case False
  then have "16 \<le> nat n" "nat n < 256" using assms by simp_all
  then have "hex_digits (nat n) = [hex_digit (nat n div 16), hex_digit (nat n mod 16)]"
    by (rule hex_digits_two)
  moreover have "nat n div 16 < 16" using \<open>nat n < 256\<close> by simp
  ultimately show ?thesis
    using assms by (simp add: format_02x_def hex_digit_lower)
qed

lemma py_int_channel:
  assumes "0 \<le> c" "c \<le> 1"
  shows "0 \<le> py_int (c * 255) \<and> py_int (c * 255) \<le> 255"
proof -
  have "0 \<le> c * 255" "c * 255 \<le> 255" using assms by simp_all
  then show ?thesis by (simp add: py_int_def floor_le_iff le_floor_iff)
qed

lemma hex_code_of_bytes:
  assumes "0 \<le> r" "r \<le> 255" "0 \<le> g" "g \<le> 255" "0 \<le> b" "b \<le> 255"
  shows "is_hex_code (lit ''#'' @ format_02x r @ format_02x g @ format_02x b)"
  using format_02x_byte [of r] format_02x_byte [of g] format_02x_byte [of b] assms
  by (simp add: is_hex_code_def lit_def)

text \<open>
  C9. For a colour of one or three channels, each between 0 and 1, \<^verbatim>\<open>rgb_to_hex\<close> returns
  a well-formed colour code: \<^verbatim>\<open>#\<close> and exactly six lower-case hexadecimal digits. Each
  \<^verbatim>\<open>int(c * 255)\<close> lies between 0 and 255 (lemma \<open>py_int_channel\<close>), so each field has
  two digits. The model of the function has no failing branch.
\<close>

theorem rgb_to_hex_well_formed:
  assumes "length (items seq) = 1 \<or> length (items seq) = 3"
    and "\<forall>c \<in> set (items seq). 0 \<le> c \<and> c \<le> 1"
  shows "is_hex_code (rgb_to_hex fr (Some seq))"
proof -
  have ch: "\<And>k. k < length (items seq) \<Longrightarrow>
      0 \<le> py_int (items seq ! k * 255) \<and> py_int (items seq ! k * 255) \<le> 255"
    using assms(2) py_int_channel by simp
  from assms(1) show ?thesis
  proof
    assume l: "length (items seq) = 1"
    then have "items seq \<noteq> []" by auto
    with l ch [of 0] show ?thesis
      by (simp add: rgb_to_hex_def hex_code_of_bytes Let_def)
  next
    assume l: "length (items seq) = 3"
    then have "items seq \<noteq> []" by auto
    with l ch [of 0] ch [of 1] ch [of 2] show ?thesis
      by (simp add: rgb_to_hex_def hex_code_of_bytes Let_def)
  qed
qed

theorem rgb_to_hex_well_formed_witness:
  "length (items (PyList [0.5, 1, 0.2])) = 3 \<and>
   list_all (\<lambda>c. 0 \<le> c \<and> c \<le> 1) (items (PyList [0.5, 1, 0.2])) \<and>
   is_hex_code (rgb_to_hex (\<lambda>c. []) (Some (PyList [0.5, 1, 0.2])))"
proof -
  have h1: "length (items (PyList [0.5, 1, 0.2])) = 1 \<or> length (items (PyList [0.5, 1, 0.2])) = 3"
    by simp
  have h2: "\<forall>c \<in> set (items (PyList [0.5, 1, 0.2])). 0 \<le> c \<and> c \<le> 1"
    by simp
  have "is_hex_code (rgb_to_hex (\<lambda>c. []) (Some (PyList [0.5, 1, 0.2])))"
    by (rule rgb_to_hex_well_formed [OF h1 h2])
  then show ?thesis by simp
qed


section \<open>Properties of the descending stable sort\<close>

lemma last_filter_keep:
  assumes "xs \<noteq> []" "P (last xs)"
  shows "last (filter P xs) = last xs"
  using assms by (induction xs rule: rev_induct) simp_all


text \<open>
  The first element after a stable descending sort: it has a maximal key, and every element
  before it in the original list has a strictly smaller key.
\<close>

lemma rev_sort_head:
  fixes f :: "'a \<Rightarrow> 'k::linorder"
  assumes "xs \<noteq> []"
  shows "\<exists>pre w post. xs = pre @ w # post \<and> (\<forall>c \<in> set pre. f c < f w) \<and>
           (\<forall>c \<in> set post. f c \<le> f w) \<and> hd (rev (sort_key f (rev xs))) = w"
proof -
  define s where "s = sort_key f (rev xs)"
  define w where "w = last s"
  have sne: "s \<noteq> []" using assms by (metis length_sort length_rev length_0_conv s_def)
  have srt: "sorted (map f s)" by (simp add: s_def)
  have sets: "set s = set xs" by (simp add: s_def)
  have maxw: "\<forall>c \<in> set s. f c \<le> f w"
  proof
    fix c assume "c \<in> set s"
    then obtain i where i: "i < length s" "s ! i = c" by (auto simp: in_set_conv_nth)
    have "map f s ! i \<le> map f s ! (length s - 1)"
      using srt i sne by (intro sorted_nth_mono) auto
    then show "f c \<le> f w" using i sne by (simp add: w_def last_conv_nth)
  qed
  let ?P = "\<lambda>y. f y = f w"
  have "filter ?P s = rev (filter ?P xs)"
    by (simp add: s_def sort_key_stable rev_filter)
  moreover have "last (filter ?P s) = w"
    using sne by (simp add: w_def last_filter_keep)
  moreover have "filter ?P s \<noteq> []"
    using sne by (metis (mono_tags, lifting) filter_empty_conv last_in_set w_def)
  ultimately have fne: "filter ?P xs \<noteq> []" and hdw: "hd (filter ?P xs) = w"
    by (auto simp: last_rev)
  then obtain ys where "filter ?P xs = w # ys" by (cases "filter ?P xs") auto
  then obtain pre post where dec: "xs = pre @ w # post" "\<forall>u \<in> set pre. \<not> ?P u"
    by (auto simp: filter_eq_Cons_iff)
  have pre_lt: "\<forall>c \<in> set pre. f c < f w"
  proof
    fix c assume c: "c \<in> set pre"
    then have "c \<in> set s" using dec(1) sets by simp
    then have "f c \<le> f w" using maxw by simp
    moreover have "f c \<noteq> f w" using dec(2) c by simp
    ultimately show "f c < f w" by simp
  qed
  have post_le: "\<forall>c \<in> set post. f c \<le> f w"
    using dec(1) maxw sets by simp
  have "hd (rev (sort_key f (rev xs))) = w"
    using sne by (simp add: w_def hd_rev s_def)
  with dec(1) pre_lt post_le show ?thesis by (intro exI conjI)
qed

lemma rev_sort_head_unique:
  fixes f :: "'a \<Rightarrow> 'k::linorder"
  assumes dec: "xs = pre @ w # post"
    and pre: "\<forall>c \<in> set pre. f c < f w"
    and post: "\<forall>c \<in> set post. f c \<le> f w"
  shows "hd (rev (sort_key f (rev xs))) = w"
proof -
  have "xs \<noteq> []" using dec by simp
  from rev_sort_head [OF this, of f]
  obtain pre' h post' where h: "xs = pre' @ h # post'" "\<forall>c \<in> set pre'. f c < f h"
      "\<forall>c \<in> set post'. f c \<le> f h" "hd (rev (sort_key f (rev xs))) = h"
    by blast
  have "w \<in> set xs" using dec by simp
  then have "f w \<le> f h" using h(1,2,3) by auto
  moreover have "h \<in> set xs" using h(1) by simp
  then have "f h \<le> f w" using dec pre post by auto
  ultimately have eq: "f h = f w" by simp
  let ?P = "\<lambda>y. f y = f w"
  have "filter ?P pre = []" using pre by (auto simp: filter_empty_conv)
  then have a: "filter ?P xs = w # filter ?P post" using dec by simp
  have "filter ?P pre' = []" using h(2) eq by (auto simp: filter_empty_conv)
  then have b: "filter ?P xs = h # filter ?P post'" using h(1) eq by simp
  from a b have "h = w" by simp
  with h(4) show ?thesis by simp
qed

section \<open>Properties of get_drawing_number\<close>

lemma collect_candidates_filter:
  "collect_candidates blocks =
     map candidate_of (filter (\<lambda>b. py_strip (b_text b) \<noteq> []) blocks)"
  by (induction blocks) (simp_all add: candidate_of_def Let_def)

lemma candidate_in_collect:
  "b \<in> set blocks \<Longrightarrow> py_strip (b_text b) \<noteq> [] \<Longrightarrow>
     candidate_of b \<in> set (collect_candidates blocks)"
  by (simp add: collect_candidates_filter)

lemma collect_candidates_empty:
  "collect_candidates blocks = [] \<longleftrightarrow> (\<forall>b \<in> set blocks. py_strip (b_text b) = [])"
  by (simp add: collect_candidates_filter filter_empty_conv)

lemma sort_candidates_nonempty: "cs \<noteq> [] \<Longrightarrow> sort_candidates cs \<noteq> []"
  by (metis length_0_conv length_rev length_sort sort_candidates_def)

lemma select_of_candidates:
  assumes "collect_candidates blocks \<noteq> []"
  shows "select_drawing_number blocks =
           Inr (remove_newlines (c_text (hd (sort_candidates (collect_candidates blocks)))))"
proof -
  have "blocks \<noteq> []" using assms by auto
  moreover obtain w rest where "sort_candidates (collect_candidates blocks) = w # rest"
    using sort_candidates_nonempty [OF assms] by (cases "sort_candidates (collect_candidates blocks)") auto
  ultimately show ?thesis
    using assms by (simp add: select_drawing_number_def Let_def)
qed

text \<open>
  The winner: when some candidate survives, the sorted list begins with a candidate \<open>w\<close>
  whose text is returned; no candidate has a greater key, and every candidate before \<open>w\<close>
  in the order of the blocks has a strictly smaller key.
\<close>

lemma winner_exists:
  assumes "collect_candidates blocks \<noteq> []"
  shows "\<exists>pre w post rest. collect_candidates blocks = pre @ w # post \<and>
           (\<forall>c \<in> set pre. sort_key_of c < sort_key_of w) \<and>
           (\<forall>c \<in> set post. sort_key_of c \<le> sort_key_of w) \<and>
           sort_candidates (collect_candidates blocks) = w # rest \<and>
           select_drawing_number blocks = Inr (remove_newlines (c_text w))"
proof -
  let ?cs = "collect_candidates blocks"
  from rev_sort_head [OF assms, of sort_key_of]
  obtain pre w post where d: "?cs = pre @ w # post"
      "\<forall>c \<in> set pre. sort_key_of c < sort_key_of w"
      "\<forall>c \<in> set post. sort_key_of c \<le> sort_key_of w"
      "hd (sort_candidates ?cs) = w"
    unfolding sort_candidates_def by blast
  have "sort_candidates ?cs \<noteq> []" by (rule sort_candidates_nonempty [OF assms])
  with d(4) have "sort_candidates ?cs = w # tl (sort_candidates ?cs)"
    by (metis list.collapse)
  moreover have "select_drawing_number blocks = Inr (remove_newlines (c_text w))"
    using select_of_candidates [OF assms] d(4) by simp
  ultimately show ?thesis using d(1,2,3) by blast
qed

lemma winner_is_maximal:
  assumes "collect_candidates blocks \<noteq> []"
  shows "\<exists>w rest. sort_candidates (collect_candidates blocks) = w # rest \<and>
           select_drawing_number blocks = Inr (remove_newlines (c_text w)) \<and>
           w \<in> set (collect_candidates blocks) \<and>
           (\<forall>c \<in> set (collect_candidates blocks). sort_key_of c \<le> sort_key_of w)"
proof -
  from winner_exists [OF assms]
  obtain pre w post rest where d: "collect_candidates blocks = pre @ w # post"
      "\<forall>c \<in> set pre. sort_key_of c < sort_key_of w"
      "\<forall>c \<in> set post. sort_key_of c \<le> sort_key_of w"
      "sort_candidates (collect_candidates blocks) = w # rest"
      "select_drawing_number blocks = Inr (remove_newlines (c_text w))"
    by blast
  have "\<forall>c \<in> set (collect_candidates blocks). sort_key_of c \<le> sort_key_of w"
    using d(1,2,3) by auto
  moreover have "w \<in> set (collect_candidates blocks)" using d(1) by simp
  ultimately show ?thesis using d(4,5) by blast
qed

lemma sort_key_of_candidate: "sort_key_of (candidate_of b) = (b_y1 b, b_x1 b)"
  by (simp add: sort_key_of_def candidate_of_def)

text \<open>
  C2. If two blocks with non-empty trimmed text are among the blocks and the bottom edge of
  \<open>B1\<close> is strictly greater than that of \<open>B2\<close>, the selected candidate lies at least as low
  as \<open>B1\<close>, so it is not the candidate of \<open>B2\<close>; nothing is assumed about the right edges.
\<close>

theorem lower_block_preferred:
  assumes "B1 \<in> set blocks" "B2 \<in> set blocks"
    and "py_strip (b_text B1) \<noteq> []" "py_strip (b_text B2) \<noteq> []"
    and "b_y1 B2 < b_y1 B1"
  shows "\<exists>w rest. sort_candidates (collect_candidates blocks) = w # rest \<and>
           select_drawing_number blocks = Inr (remove_newlines (c_text w)) \<and>
           b_y1 B1 \<le> c_y1 w \<and> w \<noteq> candidate_of B2"
proof -
  have c1: "candidate_of B1 \<in> set (collect_candidates blocks)"
    using assms(1,3) by (rule candidate_in_collect)
  then have "collect_candidates blocks \<noteq> []" by auto
  from winner_is_maximal [OF this]
  obtain w rest where w: "sort_candidates (collect_candidates blocks) = w # rest"
      "select_drawing_number blocks = Inr (remove_newlines (c_text w))"
      "\<forall>c \<in> set (collect_candidates blocks). sort_key_of c \<le> sort_key_of w"
    by blast
  from w(3) c1 have "(b_y1 B1, b_x1 B1) \<le> sort_key_of w"
    by (metis sort_key_of_candidate)
  then have le: "b_y1 B1 \<le> c_y1 w"
    by (auto simp: sort_key_of_def less_eq_prod_def)
  have "w \<noteq> candidate_of B2"
  proof
    assume "w = candidate_of B2"
    then have "c_y1 w = b_y1 B2" by (simp add: candidate_of_def)
    with le assms(5) show False by simp
  qed
  with w(1,2) le show ?thesis by blast
qed

text \<open>
  C3. If two blocks with non-empty trimmed text have equal bottom edges and the right edge
  of \<open>B1\<close> is greater than that of \<open>B2\<close>, the selected candidate has a key at least that of
  \<open>B1\<close>, so it is not the candidate of \<open>B2\<close>.
\<close>

theorem right_block_preferred:
  assumes "B1 \<in> set blocks" "B2 \<in> set blocks"
    and "py_strip (b_text B1) \<noteq> []" "py_strip (b_text B2) \<noteq> []"
    and "b_y1 B1 = b_y1 B2" "b_x1 B2 < b_x1 B1"
  shows "\<exists>w rest. sort_candidates (collect_candidates blocks) = w # rest \<and>
           select_drawing_number blocks = Inr (remove_newlines (c_text w)) \<and>
           (b_y1 B1 < c_y1 w \<or> (b_y1 B1 = c_y1 w \<and> b_x1 B1 \<le> c_x1 w)) \<and>
           w \<noteq> candidate_of B2"
proof -
  have c1: "candidate_of B1 \<in> set (collect_candidates blocks)"
    using assms(1,3) by (rule candidate_in_collect)
  then have "collect_candidates blocks \<noteq> []" by auto
  from winner_is_maximal [OF this]
  obtain w rest where w: "sort_candidates (collect_candidates blocks) = w # rest"
      "select_drawing_number blocks = Inr (remove_newlines (c_text w))"
      "\<forall>c \<in> set (collect_candidates blocks). sort_key_of c \<le> sort_key_of w"
    by blast
  from w(3) c1 have "(b_y1 B1, b_x1 B1) \<le> sort_key_of w"
    by (metis sort_key_of_candidate)
  then have le: "b_y1 B1 < c_y1 w \<or> (b_y1 B1 = c_y1 w \<and> b_x1 B1 \<le> c_x1 w)"
    by (auto simp: sort_key_of_def less_eq_prod_def)
  have "w \<noteq> candidate_of B2"
  proof
    assume "w = candidate_of B2"
    then have "c_y1 w = b_y1 B2" "c_x1 w = b_x1 B2" by (simp_all add: candidate_of_def)
    with le assms(5,6) show False by simp
  qed
  with w(1,2) le show ?thesis by blast
qed

text \<open>
  C10. If \<open>B\<close> is the earliest block of maximal key among the blocks with non-empty trimmed
  text (every such block before it has a strictly smaller key, every such block after it a
  key that is smaller or equal, so that ties are allowed), the text of \<open>B\<close> is returned.
  The sort keeps the candidates of one key in their original order.
\<close>

theorem earliest_maximal_block_wins:
  assumes "blocks = pre @ B # post" and "py_strip (b_text B) \<noteq> []"
    and "\<forall>b \<in> set pre. py_strip (b_text b) \<noteq> [] \<longrightarrow> (b_y1 b, b_x1 b) < (b_y1 B, b_x1 B)"
    and "\<forall>b \<in> set post. py_strip (b_text b) \<noteq> [] \<longrightarrow> (b_y1 b, b_x1 b) \<le> (b_y1 B, b_x1 B)"
  shows "select_drawing_number blocks = Inr (remove_newlines (py_strip (b_text B))) \<and>
         filter (\<lambda>c. sort_key_of c = k) (sort_candidates (collect_candidates blocks)) =
           filter (\<lambda>c. sort_key_of c = k) (collect_candidates blocks)"
proof -
  let ?cs = "collect_candidates blocks"
  let ?nb = "\<lambda>b. py_strip (b_text b) \<noteq> []"
  have d: "?cs = map candidate_of (filter ?nb pre) @ candidate_of B # map candidate_of (filter ?nb post)"
    using assms(1,2) by (simp add: collect_candidates_filter)
  have p: "\<forall>c \<in> set (map candidate_of (filter ?nb pre)). sort_key_of c < sort_key_of (candidate_of B)"
    using assms(3) by (auto simp: sort_key_of_candidate)
  have q: "\<forall>c \<in> set (map candidate_of (filter ?nb post)). sort_key_of c \<le> sort_key_of (candidate_of B)"
    using assms(4) by (auto simp: sort_key_of_candidate)
  have "hd (sort_candidates ?cs) = candidate_of B"
    unfolding sort_candidates_def by (rule rev_sort_head_unique [OF d p q])
  moreover have "?cs \<noteq> []" using d by simp
  ultimately have "select_drawing_number blocks = Inr (remove_newlines (c_text (candidate_of B)))"
    using select_of_candidates by simp
  then have a: "select_drawing_number blocks = Inr (remove_newlines (py_strip (b_text B)))"
    by (simp add: candidate_of_def)
  have "filter (\<lambda>c. sort_key_of c = k) (sort_candidates ?cs) =
          rev (filter (\<lambda>c. sort_key_of c = k) (sort_key sort_key_of (rev ?cs)))"
    by (simp add: sort_candidates_def rev_filter)
  also have "\<dots> = rev (filter (\<lambda>c. sort_key_of c = k) (rev ?cs))"
    by (simp add: sort_key_stable)
  also have "\<dots> = filter (\<lambda>c. sort_key_of c = k) ?cs"
    by (simp add: rev_filter)
  finally show ?thesis using a by simp
qed

lemma strip_has_nonspace:
  assumes "py_strip s \<noteq> []"
  shows "\<exists>c \<in> set (py_strip s). \<not> py_isspace c"
proof -
  let ?d = "dropWhile py_isspace (rev (dropWhile py_isspace s))"
  have ne: "?d \<noteq> []" using assms by (simp add: py_strip_def)
  then have "\<not> py_isspace (hd ?d)" by (rule hd_dropWhile)
  moreover have "hd ?d \<in> set (py_strip s)" using ne by (simp add: py_strip_def)
  ultimately show ?thesis by blast
qed

lemma remove_newlines_strip_nonempty:
  assumes "py_strip s \<noteq> []"
  shows "remove_newlines (py_strip s) \<noteq> []"
proof -
  from strip_has_nonspace [OF assms]
  obtain c where c: "c \<in> set (py_strip s)" "\<not> py_isspace c" by blast
  have "py_isspace 10" by (simp add: py_isspace_def)
  with c(2) have "c \<noteq> 10" by auto
  with c(1) show ?thesis by (auto simp: remove_newlines_def filter_empty_conv)
qed

lemma winner_from_block:
  assumes "w \<in> set (collect_candidates blocks)"
  shows "\<exists>b \<in> set blocks. py_strip (b_text b) \<noteq> [] \<and> w = candidate_of b"
  using assms by (auto simp: collect_candidates_filter)

lemma no_newline_after_remove: "10 \<notin> set (remove_newlines s)"
  by (simp add: remove_newlines_def)

text \<open>
  C4 (as amended). The placeholder for an unreadable drawing number is returned for the
  empty block sequence and for every sequence whose blocks all have empty trimmed text. For
  a sequence with at least one block of non-empty trimmed text the text of the winning
  candidate, with its newlines deleted, is returned; that string is never empty, and it is
  the placeholder only if the winning text itself reads so.
\<close>

theorem unreadable_when_no_candidate:
  "(blocks = [] \<longrightarrow> select_drawing_number blocks = Inr unreadable) \<and>
   ((\<forall>b \<in> set blocks. py_strip (b_text b) = []) \<longrightarrow>
      select_drawing_number blocks = Inr unreadable) \<and>
   ((\<exists>b \<in> set blocks. py_strip (b_text b) \<noteq> []) \<longrightarrow>
      (\<exists>w rest. sort_candidates (collect_candidates blocks) = w # rest \<and>
         select_drawing_number blocks = Inr (remove_newlines (c_text w)) \<and>
         remove_newlines (c_text w) \<noteq> [] \<and>
         (select_drawing_number blocks = Inr unreadable \<longleftrightarrow>
            remove_newlines (c_text w) = unreadable)))"
proof (intro conjI impI)
  assume "blocks = []"
  then show "select_drawing_number blocks = Inr unreadable"
    by (simp add: select_drawing_number_def)
next
  assume "\<forall>b \<in> set blocks. py_strip (b_text b) = []"
  then have "collect_candidates blocks = []" by (simp add: collect_candidates_empty)
  then show "select_drawing_number blocks = Inr unreadable"
    by (simp add: select_drawing_number_def)
next
  assume "\<exists>b \<in> set blocks. py_strip (b_text b) \<noteq> []"
  then have "collect_candidates blocks \<noteq> []" by (simp add: collect_candidates_empty)
  from winner_is_maximal [OF this]
  obtain w rest where w: "sort_candidates (collect_candidates blocks) = w # rest"
      "select_drawing_number blocks = Inr (remove_newlines (c_text w))"
      "w \<in> set (collect_candidates blocks)"
    by blast
  from winner_from_block [OF w(3)]
  obtain b where "py_strip (b_text b) \<noteq> []" "w = candidate_of b" by blast
  then have "remove_newlines (c_text w) \<noteq> []"
    by (simp add: candidate_of_def remove_newlines_strip_nonempty)
  with w(1,2) show "\<exists>w rest. sort_candidates (collect_candidates blocks) = w # rest \<and>
         select_drawing_number blocks = Inr (remove_newlines (c_text w)) \<and>
         remove_newlines (c_text w) \<noteq> [] \<and>
         (select_drawing_number blocks = Inr unreadable \<longleftrightarrow>
            remove_newlines (c_text w) = unreadable)"
    by auto
qed

text \<open>
  C5. \<^verbatim>\<open>get_drawing_number\<close> always returns a string, and the string has no newline. When
  a candidate survives, the winner is the candidate of a block of the input, and the string
  is the trimmed text of that block with every newline deleted: the pieces are put
  together with nothing between them.
\<close>

theorem result_is_winner_text_without_newlines:
  "\<exists>s. select_drawing_number blocks = Inr s \<and> 10 \<notin> set s \<and>
     (collect_candidates blocks \<noteq> [] \<longrightarrow>
        (\<exists>b \<in> set blocks. \<exists>rest.
           sort_candidates (collect_candidates blocks) = candidate_of b # rest \<and>
           s = filter (\<lambda>c. c \<noteq> 10) (py_strip (b_text b))))"
proof (cases "collect_candidates blocks = []")
  case True
  then have "select_drawing_number blocks = Inr unreadable"
    by (simp add: select_drawing_number_def)
  moreover have "10 \<notin> set unreadable" by (simp add: unreadable_def)
  ultimately show ?thesis using True by simp
next
  case False
  from winner_is_maximal [OF this]
  obtain w rest where w: "sort_candidates (collect_candidates blocks) = w # rest"
      "select_drawing_number blocks = Inr (remove_newlines (c_text w))"
      "w \<in> set (collect_candidates blocks)"
    by blast
  from winner_from_block [OF w(3)]
  obtain b where b: "b \<in> set blocks" "w = candidate_of b" by blast
  have "remove_newlines (c_text w) = filter (\<lambda>c. c \<noteq> 10) (py_strip (b_text b))"
    using b(2) by (simp add: remove_newlines_def candidate_of_def)
  with w(1,2) b show ?thesis
    using no_newline_after_remove [of "c_text w"] by auto
qed

section \<open>The properties at the example inputs\<close>

lemmas example_block_defs =
  example_title_block_def example_scale_block_def example_left_block_def
  example_tie_block_def example_blank_block_def example_multiline_block_def
  example_unreadable_block_def

lemmas string_defs = lit_def py_strip_def py_isspace_def remove_newlines_def unreadable_def

lemma example_select_multiline:
  "select_drawing_number [example_blank_block, example_multiline_block] = Inr (lit ''A-101'')"
  by (simp add: select_drawing_number_def sort_candidates_def sort_key_of_def
      example_block_defs string_defs)

theorem lower_block_preferred_witness:
  "example_title_block \<in> set [example_scale_block, example_blank_block, example_title_block] \<and>
   example_scale_block \<in> set [example_scale_block, example_blank_block, example_title_block] \<and>
   py_strip (b_text example_title_block) \<noteq> [] \<and>
   py_strip (b_text example_scale_block) \<noteq> [] \<and>
   b_y1 example_scale_block < b_y1 example_title_block \<and>
   (\<exists>w rest.
      sort_candidates (collect_candidates [example_scale_block, example_blank_block, example_title_block])
        = w # rest \<and>
      select_drawing_number [example_scale_block, example_blank_block, example_title_block]
        = Inr (remove_newlines (c_text w)) \<and>
      b_y1 example_title_block \<le> c_y1 w \<and> w \<noteq> candidate_of example_scale_block)"
proof -
  let ?bs = "[example_scale_block, example_blank_block, example_title_block]"
  have h1: "example_title_block \<in> set ?bs" by simp
  have h2: "example_scale_block \<in> set ?bs" by simp
  have h3: "py_strip (b_text example_title_block) \<noteq> []"
    by (simp add: example_block_defs string_defs)
  have h4: "py_strip (b_text example_scale_block) \<noteq> []"
    by (simp add: example_block_defs string_defs)
  have h5: "b_y1 example_scale_block < b_y1 example_title_block"
    by (simp add: example_block_defs)
  from lower_block_preferred [OF h1 h2 h3 h4 h5] h1 h2 h3 h4 h5 show ?thesis
    by (intro conjI)
qed

theorem right_block_preferred_witness:
  "example_title_block \<in> set [example_left_block, example_title_block] \<and>
   example_left_block \<in> set [example_left_block, example_title_block] \<and>
   py_strip (b_text example_title_block) \<noteq> [] \<and>
   py_strip (b_text example_left_block) \<noteq> [] \<and>
   b_y1 example_title_block = b_y1 example_left_block \<and>
   b_x1 example_left_block < b_x1 example_title_block \<and>
   (\<exists>w rest.
      sort_candidates (collect_candidates [example_left_block, example_title_block]) = w # rest \<and>
      select_drawing_number [example_left_block, example_title_block]
        = Inr (remove_newlines (c_text w)) \<and>
      (b_y1 example_title_block < c_y1 w \<or>
       (b_y1 example_title_block = c_y1 w \<and> b_x1 example_title_block \<le> c_x1 w)) \<and>
      w \<noteq> candidate_of example_left_block)"
proof -
  let ?bs = "[example_left_block, example_title_block]"
  have h1: "example_title_block \<in> set ?bs" by simp
  have h2: "example_left_block \<in> set ?bs" by simp
  have h3: "py_strip (b_text example_title_block) \<noteq> []"
    by (simp add: example_block_defs string_defs)
  have h4: "py_strip (b_text example_left_block) \<noteq> []"
    by (simp add: example_block_defs string_defs)
  have h5: "b_y1 example_title_block = b_y1 example_left_block"
    by (simp add: example_block_defs)
  have h6: "b_x1 example_left_block < b_x1 example_title_block"
    by (simp add: example_block_defs)
  from right_block_preferred [OF h1 h2 h3 h4 h5 h6] h1 h2 h3 h4 h5 h6 show ?thesis
    by (intro conjI)
qed

theorem earliest_maximal_block_wins_witness:
  "select_drawing_number [example_scale_block, example_title_block, example_tie_block]
     = Inr (lit ''A-101'') \<and>
   filter (\<lambda>c. sort_key_of c = (780, 480))
     (sort_candidates (collect_candidates [example_scale_block, example_title_block, example_tie_block]))
     = [candidate_of example_title_block, candidate_of example_tie_block]"
proof -
  have h1: "[example_scale_block, example_title_block, example_tie_block]
              = [example_scale_block] @ example_title_block # [example_tie_block]"
    by simp
  have h2: "py_strip (b_text example_title_block) \<noteq> []"
    by (simp add: example_block_defs string_defs)
  have h3: "\<forall>b \<in> set [example_scale_block]. py_strip (b_text b) \<noteq> [] \<longrightarrow>
              (b_y1 b, b_x1 b) < (b_y1 example_title_block, b_x1 example_title_block)"
    by (simp add: example_block_defs)
  have h4: "\<forall>b \<in> set [example_tie_block]. py_strip (b_text b) \<noteq> [] \<longrightarrow>
              (b_y1 b, b_x1 b) \<le> (b_y1 example_title_block, b_x1 example_title_block)"
    by (simp add: example_block_defs)
  have t: "remove_newlines (py_strip (b_text example_title_block)) = lit ''A-101''"
    by (simp add: example_block_defs string_defs)
  have c: "filter (\<lambda>c. sort_key_of c = (780, 480))
             (collect_candidates [example_scale_block, example_title_block, example_tie_block])
           = [candidate_of example_title_block, candidate_of example_tie_block]"
    by (simp add: sort_key_of_def candidate_of_def example_block_defs string_defs)
  from earliest_maximal_block_wins [OF h1 h2 h3 h4, of "(780, 480)"] t c show ?thesis
    by simp
qed

text \<open>
  A block that reads as the placeholder survives as a candidate, and the placeholder is
  what comes back: the returned string alone does not tell the two cases apart.
\<close>

theorem unreadable_text_counterexample:
  "py_strip (b_text example_unreadable_block) \<noteq> [] \<and>
   select_drawing_number [example_unreadable_block] = Inr unreadable"
  by (simp add: select_drawing_number_def sort_candidates_def sort_key_of_def
      example_block_defs string_defs)

theorem unreadable_when_no_candidate_witness:
  "select_drawing_number [] = Inr unreadable \<and>
   py_strip (b_text example_blank_block) = [] \<and>
   select_drawing_number [example_blank_block] = Inr unreadable \<and>
   (\<exists>b \<in> set [example_title_block]. py_strip (b_text b) \<noteq> []) \<and>
   (\<exists>w rest. sort_candidates (collect_candidates [example_title_block]) = w # rest \<and>
      select_drawing_number [example_title_block] = Inr (remove_newlines (c_text w)) \<and>
      remove_newlines (c_text w) \<noteq> [] \<and>
      (select_drawing_number [example_title_block] = Inr unreadable \<longleftrightarrow>
         remove_newlines (c_text w) = unreadable))"
proof -
  have h2: "\<forall>b \<in> set [example_blank_block]. py_strip (b_text b) = []"
    by (simp add: example_block_defs string_defs)
  have h3: "\<exists>b \<in> set [example_title_block]. py_strip (b_text b) \<noteq> []"
    by (simp add: example_block_defs string_defs)
  from unreadable_when_no_candidate [of "[]"]
  have a: "select_drawing_number [] = Inr unreadable" by simp
  from unreadable_when_no_candidate [of "[example_blank_block]"] h2
  have b: "select_drawing_number [example_blank_block] = Inr unreadable" by blast
  from unreadable_when_no_candidate [of "[example_title_block]"] h3
  have c: "\<exists>w rest. sort_candidates (collect_candidates [example_title_block]) = w # rest \<and>
      select_drawing_number [example_title_block] = Inr (remove_newlines (c_text w)) \<and>
      remove_newlines (c_text w) \<noteq> [] \<and>
      (select_drawing_number [example_title_block] = Inr unreadable \<longleftrightarrow>
         remove_newlines (c_text w) = unreadable)" by blast
  have h2': "py_strip (b_text example_blank_block) = []" using h2 by simp
  from a h2' b h3 c show ?thesis by (intro conjI)
qed

theorem result_is_winner_text_without_newlines_witness:
  "collect_candidates [example_blank_block, example_multiline_block] \<noteq> [] \<and>
   (\<exists>s. select_drawing_number [example_blank_block, example_multiline_block] = Inr s \<and>
      10 \<notin> set s \<and>
      (\<exists>b \<in> set [example_blank_block, example_multiline_block]. \<exists>rest.
         sort_candidates (collect_candidates [example_blank_block, example_multiline_block])
           = candidate_of b # rest \<and>
         s = filter (\<lambda>c. c \<noteq> 10) (py_strip (b_text b))))"
proof -
  have h: "collect_candidates [example_blank_block, example_multiline_block] \<noteq> []"
    by (simp add: example_block_defs string_defs)
  from result_is_winner_text_without_newlines [of "[example_blank_block, example_multiline_block]"] h
  show ?thesis by blast
qed

section \<open>Properties of the annotation loop\<close>

lemma annot_loop_map_filter:
  "annot_loop fr i dn annots acc = acc @ List.map_filter (annot_step fr i dn) annots"
  by (induction annots arbitrary: acc) (simp_all add: map_filter_simps split: option.splits)

lemma annot_step_Some_iff: "(\<exists>r. annot_step fr i dn a = Some r) \<longleftrightarrow> has_content a"
  by (simp add: annot_step_def has_content_def Let_def split: option.splits)

lemma annot_step_content:
  "annot_step fr i dn a = Some r \<Longrightarrow> r_content r = get_or_empty (info a) ''content''"
  by (auto simp: annot_step_def get_or_empty_def Let_def split: option.splits if_splits)

lemma map_filter_content:
  "map r_content (List.map_filter (annot_step fr i dn) annots) =
     map (\<lambda>a. get_or_empty (info a) ''content'') (filter has_content annots)"
proof (induction annots)
  case Nil
  show ?case by (simp add: map_filter_simps)
next
  case (Cons a annots)
  show ?case
  proof (cases "annot_step fr i dn a")
    case None
    then have "\<not> has_content a" using annot_step_Some_iff [of fr i dn a] by simp
    with None Cons show ?thesis by (simp add: map_filter_simps)
  next
    case (Some r)
    then have "has_content a" using annot_step_Some_iff [of fr i dn a] by auto
    with Some Cons annot_step_content [OF Some] show ?thesis by (simp add: map_filter_simps)
  qed
qed

text \<open>
  C1 (as amended). The annotation loop appends one row for exactly the annotations whose
  content is present and not the empty string, in the order of the annotations, with the
  content as it is; an annotation whose content is white space only has a row like any other.
\<close>

theorem annot_loop_keeps_nonempty_content:
  "map r_content (annot_loop fr i dn annots []) =
     map (\<lambda>a. get_or_empty (info a) ''content'') (filter has_content annots) \<and>
   length (annot_loop fr i dn annots []) = length (filter has_content annots)"
proof -
  have "map r_content (annot_loop fr i dn annots []) =
     map (\<lambda>a. get_or_empty (info a) ''content'') (filter has_content annots)"
    by (simp add: annot_loop_map_filter map_filter_content)
  moreover from this have "length (annot_loop fr i dn annots []) = length (filter has_content annots)"
    by (metis length_map)
  ultimately show ?thesis by simp
qed

lemmas example_annot_defs =
  example_red_annot_def example_plain_annot_def example_space_annot_def example_cmyk_annot_def

text \<open>
  An annotation whose content is a single space: no content once trimmed, and yet it has
  its row.
\<close>

theorem whitespace_content_counterexample:
  "\<not> has_nonblank_content example_space_annot \<and>
   map r_content (annot_loop example_repr 0 (lit ''A-101'') [example_space_annot] []) = [lit '' '']"
  by (simp add: has_nonblank_content_def annot_step_def example_annot_defs
      lit_def py_strip_def py_isspace_def Let_def)

section \<open>Properties of the colour name\<close>

lemma upper_eq_iff_lower_eq: "upper_char c = upper_char d \<longleftrightarrow> lower_char c = lower_char d"
  by (auto simp: upper_char_def lower_char_def split: if_splits)

lemma py_upper_eq_iff_ci_equal: "py_upper s = py_upper t \<longleftrightarrow> ci_equal s t"
proof (induction s arbitrary: t)
  case Nil
  show ?case by (auto simp: py_upper_def ci_equal_def)
next
  case (Cons c s)
  show ?case
  proof (cases t)
    case Nil
    then show ?thesis by (simp add: py_upper_def ci_equal_def)
  next
    case (Cons d t')
    with Cons.IH [of t'] show ?thesis
      by (simp add: py_upper_def ci_equal_def upper_eq_iff_lower_eq)
  qed
qed

lemma table_keys_upper:
  "py_upper (lit ''#FF0000'') = lit ''#FF0000''"
  "py_upper (lit ''#0000FF'') = lit ''#0000FF''"
  "py_upper (lit ''#000000'') = lit ''#000000''"
  by (simp_all add: py_upper_def upper_char_def lit_def)

lemma color_name_of_table: "color_name_of h = spec_color_name h"
proof -
  have "py_upper h = lit ''#FF0000'' \<longleftrightarrow> ci_equal h (lit ''#FF0000'')"
    using py_upper_eq_iff_ci_equal [of h "lit ''#FF0000''"] by (simp add: table_keys_upper)
  moreover have "py_upper h = lit ''#0000FF'' \<longleftrightarrow> ci_equal h (lit ''#0000FF'')"
    using py_upper_eq_iff_ci_equal [of h "lit ''#0000FF''"] by (simp add: table_keys_upper)
  moreover have "py_upper h = lit ''#000000'' \<longleftrightarrow> ci_equal h (lit ''#000000'')"
    using py_upper_eq_iff_ci_equal [of h "lit ''#000000''"] by (simp add: table_keys_upper)
  ultimately show ?thesis
    by (simp add: color_name_of_def spec_color_name_def spec_color_table_def)
qed

lemma color_name_of_not_specified: "color_name_of not_specified = name_other"
  by (simp add: color_name_of_def not_specified_def py_upper_def lit_def)

lemma color_name_of_fallback: "color_name_of (py_str_seq fr seq) = name_other"
  by (cases seq) (simp_all add: color_name_of_def py_upper_def upper_char_def lit_def)

lemma annot_step_colors:
  "annot_step fr i dn a = Some r \<Longrightarrow>
     r_color_hex r = rgb_to_hex fr (colors a ''stroke'') \<and>
     r_color_name r = color_name_of (r_color_hex r)"
  by (auto simp: annot_step_def Let_def split: option.splits if_splits)

lemma rgb_to_hex_fallback:
  assumes "length (items seq) \<noteq> 0" "length (items seq) \<noteq> 1" "length (items seq) \<noteq> 3"
  shows "rgb_to_hex fr (Some seq) = py_str_seq fr seq"
  using assms by (simp add: rgb_to_hex_def)

text \<open>
  C7. In every row the colour name is the entry of the table \<^verbatim>\<open>#FF0000\<close> (red),
  \<^verbatim>\<open>#0000FF\<close> (blue), \<^verbatim>\<open>#000000\<close> (black) that the colour code of the row matches when
  the case of letters is ignored, and ``other'' when it matches none. The placeholder for
  a missing colour and the text printed for a colour of another length are named ``other''.
\<close>

theorem color_name_by_table:
  assumes "annot_step fr i dn a = Some r"
  shows "r_color_name r = spec_color_name (r_color_hex r) \<and>
         (r_color_hex r = not_specified \<longrightarrow> r_color_name r = name_other) \<and>
         (\<forall>seq. colors a ''stroke'' = Some seq \<and> length (items seq) \<noteq> 0 \<and>
                length (items seq) \<noteq> 1 \<and> length (items seq) \<noteq> 3 \<longrightarrow>
                r_color_name r = name_other)"
proof -
  from annot_step_colors [OF assms]
  have hex: "r_color_hex r = rgb_to_hex fr (colors a ''stroke'')"
    and name: "r_color_name r = color_name_of (r_color_hex r)" by simp_all
  have "r_color_name r = spec_color_name (r_color_hex r)"
    using name by (simp add: color_name_of_table)
  moreover have "r_color_hex r = not_specified \<longrightarrow> r_color_name r = name_other"
    using name by (simp add: color_name_of_not_specified)
  moreover have "\<forall>seq. colors a ''stroke'' = Some seq \<and> length (items seq) \<noteq> 0 \<and>
                length (items seq) \<noteq> 1 \<and> length (items seq) \<noteq> 3 \<longrightarrow>
                r_color_name r = name_other"
    using name hex by (simp add: rgb_to_hex_fallback color_name_of_fallback)
  ultimately show ?thesis by (intro conjI)
qed

lemmas example_row_defs = example_row1_def example_row2_def example_row3_def

lemma example_step_red:
  "annot_step example_repr 0 (lit ''A-101'') example_red_annot = Some example_row1"
  by (simp add: annot_step_def example_annot_defs example_row_defs rgb_to_hex_def py_int_def
      format_02x_0 format_02x_255 color_name_of_def py_upper_def upper_char_def get_or_empty_def
      lit_def Let_def)

lemma example_step_plain:
  "annot_step example_repr 1 unreadable example_plain_annot = Some example_row2"
  by (simp add: annot_step_def example_annot_defs example_row_defs rgb_to_hex_def
      color_name_of_not_specified get_or_empty_def lit_def Let_def)

lemma example_step_cmyk:
  "annot_step example_repr 1 unreadable example_cmyk_annot = Some example_row3"
  by (simp add: annot_step_def example_annot_defs example_row_defs rgb_to_hex_def
      color_name_of_def py_upper_def upper_char_def get_or_empty_def example_repr_def
      lit_def Let_def)

theorem color_name_by_table_witness:
  "annot_step example_repr 0 (lit ''A-101'') example_red_annot = Some example_row1 \<and>
   r_color_name example_row1 = spec_color_name (r_color_hex example_row1) \<and>
   r_color_name example_row1 = name_red \<and>
   annot_step example_repr 1 unreadable example_plain_annot = Some example_row2 \<and>
   r_color_hex example_row2 = not_specified \<and>
   r_color_name example_row2 = name_other \<and>
   annot_step example_repr 1 unreadable example_cmyk_annot = Some example_row3 \<and>
   colors example_cmyk_annot ''stroke'' = Some (PyList [0, 0, 0, 1]) \<and>
   r_color_name example_row3 = name_other"
proof -
  have a: "r_color_name example_row1 = spec_color_name (r_color_hex example_row1)"
    using color_name_by_table [OF example_step_red] by blast
  have a': "r_color_name example_row1 = name_red" by (simp add: example_row_defs)
  have h2: "r_color_hex example_row2 = not_specified" by (simp add: example_row_defs)
  have b: "r_color_name example_row2 = name_other"
    using color_name_by_table [OF example_step_plain] h2 by blast
  have h3: "colors example_cmyk_annot ''stroke'' = Some (PyList [0, 0, 0, 1])"
    by (simp add: example_annot_defs)
  have "length (items (PyList [0, 0, 0, 1])) \<noteq> 0 \<and> length (items (PyList [0, 0, 0, 1])) \<noteq> 1 \<and>
        length (items (PyList [0, 0, 0, 1])) \<noteq> 3" by simp
  with h3 have c: "r_color_name example_row3 = name_other"
    using color_name_by_table [OF example_step_cmyk] by blast
  from example_step_red a a' example_step_plain h2 b example_step_cmyk h3 c
  show ?thesis by (intro conjI)
qed

section \<open>Properties of the page loop\<close>

lemma select_total: "\<exists>s. select_drawing_number blocks = Inr s"
proof (cases "collect_candidates blocks = []")
  case True
  then show ?thesis by (simp add: select_drawing_number_def)
next
  case False
  then show ?thesis using select_of_candidates by blast
qed

lemma get_drawing_number_total: "\<exists>s. get_drawing_number p w h = Inr s"
  by (simp add: get_drawing_number_def Let_def select_total)

lemma page_loop_rows:
  assumes "\<forall>p \<in> set ps. get_drawing_number p (rect_width p) (rect_height p) = Inr (dn p)"
  shows "page_loop fr i ps acc =
           Inr (acc @ concat (map (\<lambda>(k, p). List.map_filter (annot_step fr k (dn p)) (page_annots p))
                                (List.enumerate i ps)))"
  using assms
proof (induction ps arbitrary: i acc)
  case Nil
  show ?case by simp
next
  case (Cons p ps)
  have g: "get_drawing_number p (rect_width p) (rect_height p) = Inr (dn p)"
    using Cons.prems by simp
  have rest: "\<forall>q \<in> set ps. get_drawing_number q (rect_width q) (rect_height q) = Inr (dn q)"
    using Cons.prems by simp
  have step: "(if page_annots p \<noteq> [] then annot_loop fr i (dn p) (page_annots p) acc else acc)
                = acc @ List.map_filter (annot_step fr i (dn p)) (page_annots p)"
    by (simp add: annot_loop_map_filter map_filter_simps)
  have "page_loop fr i (p # ps) acc =
          page_loop fr (Suc i) ps (acc @ List.map_filter (annot_step fr i (dn p)) (page_annots p))"
    using g step by (simp add: Let_def)
  then show ?case using Cons.IH [OF rest] by simp
qed

lemma annot_step_page:
  "annot_step fr k d a = Some r \<Longrightarrow> r_page r = k + 1 \<and> r_drawing_no r = d"
  by (auto simp: annot_step_def Let_def split: option.splits if_splits)

lemma map_filter_mem:
  "r \<in> set (List.map_filter f xs) \<Longrightarrow> \<exists>x \<in> set xs. f x = Some r"
  by (auto simp: map_filter_def)

text \<open>
  C8. \<^verbatim>\<open>get_drawing_number\<close> returns a string \<open>dn p\<close> for every page \<open>p\<close>. The rows of
  the document are the rows of its pages put one after the other in the order of the
  pages, the rows of a page being in the order of its annotations; a row of page number
  \<open>k\<close> (counted from 0) carries the page index \<open>k + 1\<close> and the string \<open>dn p\<close> of that page.
\<close>

theorem main_rows_by_page:
  "\<exists>dn. (\<forall>p \<in> set doc. get_drawing_number p (rect_width p) (rect_height p) = Inr (dn p)) \<and>
      main fr doc =
        Inr (concat (map (\<lambda>(k, p). List.map_filter (annot_step fr k (dn p)) (page_annots p))
                       (List.enumerate 0 doc))) \<and>
      (\<forall>k p r. (k, p) \<in> set (List.enumerate 0 doc) \<and>
                r \<in> set (List.map_filter (annot_step fr k (dn p)) (page_annots p)) \<longrightarrow>
                r_page r = k + 1 \<and> r_drawing_no r = dn p)"
proof -
  define dn where
    "dn p = (case get_drawing_number p (rect_width p) (rect_height p) of Inr s \<Rightarrow> s | Inl e \<Rightarrow> [])"
    for p
  have g: "\<forall>p \<in> set doc. get_drawing_number p (rect_width p) (rect_height p) = Inr (dn p)"
  proof
    fix p
    obtain s where "get_drawing_number p (rect_width p) (rect_height p) = Inr s"
      using get_drawing_number_total by blast
    then show "get_drawing_number p (rect_width p) (rect_height p) = Inr (dn p)"
      by (simp add: dn_def)
  qed
  have m: "main fr doc =
        Inr (concat (map (\<lambda>(k, p). List.map_filter (annot_step fr k (dn p)) (page_annots p))
                       (List.enumerate 0 doc)))"
    using page_loop_rows [OF g, of fr 0 "[]"] by (simp add: main_def)
  have r: "\<forall>k p r. (k, p) \<in> set (List.enumerate 0 doc) \<and>
                r \<in> set (List.map_filter (annot_step fr k (dn p)) (page_annots p)) \<longrightarrow>
                r_page r = k + 1 \<and> r_drawing_no r = dn p"
    using map_filter_mem annot_step_page by fast
  from g m r show ?thesis by blast
qed

lemma example_page1_number:
  "get_drawing_number example_page1 (rect_width example_page1) (rect_height example_page1)
     = Inr (lit ''A-101'')"
  by (simp add: get_drawing_number_def example_page1_def select_drawing_number_def
      sort_candidates_def example_block_defs string_defs)

lemma example_page2_number:
  "get_drawing_number example_page2 (rect_width example_page2) (rect_height example_page2)
     = Inr unreadable"
  by (simp add: get_drawing_number_def example_page2_def select_drawing_number_def)

theorem main_rows_by_page_witness:
  "main example_repr [example_page1, example_page2] = Inr [example_row1, example_row2]"
proof -
  from main_rows_by_page [of "[example_page1, example_page2]" example_repr]
  obtain dn where
    g: "\<forall>p \<in> set [example_page1, example_page2].
          get_drawing_number p (rect_width p) (rect_height p) = Inr (dn p)" and
    m: "main example_repr [example_page1, example_page2] =
        Inr (concat (map (\<lambda>(k, p). List.map_filter (annot_step example_repr k (dn p)) (page_annots p))
                       (List.enumerate 0 [example_page1, example_page2])))"
    by blast
  have d1: "dn example_page1 = lit ''A-101''"
    using g example_page1_number by simp
  have d2: "dn example_page2 = unreadable"
    using g example_page2_number by simp
  have a1: "page_annots example_page1 = [example_red_annot]" by (simp add: example_page1_def)
  have a2: "page_annots example_page2 = [example_plain_annot]" by (simp add: example_page2_def)
  show ?thesis
    using m d1 d2 a1 a2 example_step_red example_step_plain
    by (simp add: map_filter_simps)
qed

end
